theory Spec2Isabelle
  imports Complex_Main
begin

section \<open>Data model\<close>

text \<open>
  The two scripts \<^verbatim>\<open>images_optimizer/multiple_images_optimizer.py\<close> (the batch variant)
  and \<^verbatim>\<open>images_optimizer/optimizer.py\<close> (the single-image variant) share the function
  \<^verbatim>\<open>optimize_to_target_size\<close> word for word (only the level of two log lines differs).

  A raised Python exception is the string \<^verbatim>\<open>str(e)\<close> that the handlers of the scripts
  record; every fallible call returns a sum, \<open>Inl\<close> being the raise.
\<close>

type_synonym exn = string

text \<open>
  A \<^verbatim>\<open>PIL.Image\<close>: its size, its colour mode, its pixel data (opaque, a number standing for
  the buffer) and what \<^verbatim>\<open>_getexif()\<close> yields (\<open>None\<close> when the attribute is missing, the call
  returns nothing or raises, which \<^verbatim>\<open>preserve_metadata\<close> treats alike).
\<close>

record image =
  width :: int
  height :: int
  mode :: string
  pixels :: nat
  getexif :: "(nat \<times> string) list option"

text \<open>
  A \<^verbatim>\<open>pathlib.Path\<close>, as far as the scripts look at it: the components of the parent
  directory, the stem and the suffix of the file name.
\<close>

record path =
  parent :: "string list"
  stem :: string
  suffix :: string

text \<open>
  The module-level names of the scripts (lines 125-135 of the batch variant, 89-94 of the
  single-image variant). \<^verbatim>\<open>USER_INPUT_DIR_NAME\<close> and \<^verbatim>\<open>format_decision\<close> are read from
  the terminal when the batch module is loaded. \<^verbatim>\<open>RESIZE_FACTOR\<close> is the float \<^verbatim>\<open>0.8\<close>;
  it is the rational \<open>8/10\<close> here. For a width \<open>w\<close> below \<open>2^49\<close> the double nearest to
  \<open>w * 0.8\<close> has the same integer part as the exact product (the double \<^verbatim>\<open>0.8\<close> exceeds
  \<open>8/10\<close> by \<open>2^-54\<close> relative, less than half a unit in the last place of an exact
  multiple of four fifths, and the other products are at least \<open>1/5\<close> away from an
  integer), so \<^verbatim>\<open>int(old_width * RESIZE_FACTOR)\<close> is computed exactly.
\<close>

record globals =
  TARGET_MIN_SIZE_KB :: int
  TARGET_MAX_SIZE_KB :: int
  MAX_SIZE_KB :: int
  INITIAL_QUALITY :: int
  MIN_QUALITY :: int
  RESIZE_FACTOR :: rat
  MAX_WORKERS :: int
  USER_INPUT_DIR_NAME :: string
  format_decision :: int

definition module_globals :: "string \<Rightarrow> int \<Rightarrow> globals" where
  "module_globals dir_name decision =
     \<lparr>TARGET_MIN_SIZE_KB = 30, TARGET_MAX_SIZE_KB = 90, MAX_SIZE_KB = 100,
      INITIAL_QUALITY = 80, MIN_QUALITY = 30, RESIZE_FACTOR = 8 / 10, MAX_WORKERS = 4,
      USER_INPUT_DIR_NAME = dir_name, format_decision = decision\<rparr>"

text \<open>
  The imaging library, an external collaborator. \<open>save_size\<close> is
  \<^verbatim>\<open>current_img.save(output_path, format=format_name, quality=quality)\<close> followed by
  \<^verbatim>\<open>os.path.getsize(output_path)\<close>: the number of bytes on disk, or the exception of the
  encoder. \<open>resize_pixels\<close> is \<^verbatim>\<open>current_img.resize((w, h), Image.LANCZOS)\<close> and
  \<open>convert_rgb\<close> is \<^verbatim>\<open>current_img.convert("RGB")\<close>: the new pixel data, or an
  exception. \<open>TAGS\<close> is the table \<^verbatim>\<open>PIL.ExifTags.TAGS\<close>.
\<close>

record pil =
  save_size :: "image \<Rightarrow> string \<Rightarrow> int \<Rightarrow> exn + int"
  resize_pixels :: "image \<Rightarrow> int \<Rightarrow> int \<Rightarrow> exn + nat"
  convert_rgb :: "image \<Rightarrow> exn + nat"
  TAGS :: "nat \<rightharpoonup> string"

text \<open>
  The calls the optimizer makes to the library, in the order it makes them: an encode
  attempt with the size of the image handed over, the quality and what came back, and a
  resize attempt with the size asked for.
\<close>

datatype event =
  Save int int int "exn + int"
| Resize int int

section \<open>String and number helpers of Python\<close>

definition upper_char :: "char \<Rightarrow> char" where
  "upper_char c =
     (let n = (of_char c :: nat) in if 97 \<le> n \<and> n \<le> 122 then char_of (n - 32) else c)"

definition lower_char :: "char \<Rightarrow> char" where
  "lower_char c =
     (let n = (of_char c :: nat) in if 65 \<le> n \<and> n \<le> 90 then char_of (n + 32) else c)"

text \<open>\<^verbatim>\<open>str.upper\<close> and \<^verbatim>\<open>str.lower\<close> on the ASCII names the scripts pass.\<close>

definition upper :: "string \<Rightarrow> string" where
  "upper s = map upper_char s"

definition lower :: "string \<Rightarrow> string" where
  "lower s = map lower_char s"

text \<open>\<^verbatim>\<open>int(x)\<close> of a float truncates towards zero.\<close>

definition py_int :: "rat \<Rightarrow> int" where
  "py_int x = (if 0 \<le> x then \<lfloor>x\<rfloor> else \<lceil>x\<rceil>)"

text \<open>\<^verbatim>\<open>os.path.getsize(p) / 1024\<close>: a division by a power of two, exact on doubles.\<close>

definition kb :: "int \<Rightarrow> rat" where
  "kb b = of_int b / 1024"

section \<open>The size-targeting optimizer\<close>

text \<open>The local variables of \<^verbatim>\<open>optimize_to_target_size\<close>.\<close>

record opt_state =
  quality :: int
  resize_needed :: bool
  resize_count :: nat
  current_img :: image
  current_size :: rat

definition max_resize_attempts :: nat where
  "max_resize_attempts = 5"

text \<open>
  One pass through the body of a loop either goes back to the loop test with a new state
  (\<open>Continue\<close>) or leaves the loop (\<open>Leave\<close>: by \<^verbatim>\<open>break\<close> with the state, or by an exception);
  both carry the library calls of the pass.
\<close>

datatype pass =
  Continue "event list" opt_state
| Leave "event list" "exn + opt_state"

text \<open>The body of \<^verbatim>\<open>while current_size > MAX_SIZE_KB\<close> (lines 200-225).\<close>

definition reduce_pass :: "globals \<Rightarrow> pil \<Rightarrow> string \<Rightarrow> int \<Rightarrow> opt_state \<Rightarrow> pass" where
  "reduce_pass g P format_name initial_quality st =
     (if quality st > MIN_QUALITY g then
        (let reduction = (if current_size st > of_int (2 * MAX_SIZE_KB g) then 10 else 5);
             q = max (MIN_QUALITY g) (quality st - reduction);
             r = save_size P (current_img st) format_name q;
             ev = Save (width (current_img st)) (height (current_img st)) q r
         in case r of
              Inl e \<Rightarrow> Leave [ev] (Inl e)
            | Inr b \<Rightarrow> Continue [ev] (st\<lparr>quality := q, current_size := kb b\<rparr>))
      else if resize_count st \<ge> max_resize_attempts then Leave [] (Inr st)
      else
        (let old_width = width (current_img st);
             old_height = height (current_img st);
             new_width = py_int (of_int old_width * RESIZE_FACTOR g);
             new_height = py_int (of_int old_height * RESIZE_FACTOR g)
         in case resize_pixels P (current_img st) new_width new_height of
              Inl e \<Rightarrow> Leave [Resize new_width new_height] (Inl e)
            | Inr px \<Rightarrow>
                (let im = (current_img st)\<lparr>width := new_width, height := new_height, pixels := px\<rparr>;
                     r = save_size P im format_name initial_quality;
                     evs = [Resize new_width new_height, Save new_width new_height initial_quality r]
                 in case r of
                      Inl e \<Rightarrow> Leave evs (Inl e)
                    | Inr b \<Rightarrow>
                        Continue evs
                          (st\<lparr>current_img := im, quality := initial_quality,
                             current_size := kb b, resize_needed := True,
                             resize_count := resize_count st + 1\<rparr>))))"

lemma reduce_pass_decreases:
  assumes "reduce_pass g P format_name initial_quality st = Continue evs st'"
  shows "(resize_count st' = resize_count st \<and> MIN_QUALITY g \<le> quality st'
            \<and> quality st' < quality st)
         \<or> (resize_count st < max_resize_attempts \<and> resize_count st' = Suc (resize_count st))"
  using assms
  by (auto simp: reduce_pass_def Let_def split: if_splits sum.splits)

function reduce_loop ::
  "globals \<Rightarrow> pil \<Rightarrow> string \<Rightarrow> int \<Rightarrow> opt_state \<Rightarrow> event list \<times> (exn + opt_state)" where
  "reduce_loop g P format_name initial_quality st =
     (if current_size st > of_int (MAX_SIZE_KB g) then
        (case reduce_pass g P format_name initial_quality st of
           Leave evs r \<Rightarrow> (evs, r)
         | Continue evs st' \<Rightarrow>
             (case reduce_loop g P format_name initial_quality st' of
                (tr, r) \<Rightarrow> (evs @ tr, r)))
      else ([], Inr st))"
  by pat_completeness auto

termination
proof (relation "measures [\<lambda>(g, P, f, iq, st). max_resize_attempts - resize_count st,
                           \<lambda>(g, P, f, iq, st). nat (quality st - MIN_QUALITY g)]")
  show "wf (measures [\<lambda>(g, P, f, iq, st). max_resize_attempts - resize_count st,
                      \<lambda>(g, P, f, iq, st). nat (quality st - MIN_QUALITY g)])"
    by simp
next
  fix g P format_name initial_quality st evs st'
  assume "reduce_pass g P format_name initial_quality st = Continue evs st'"
  from reduce_pass_decreases [OF this]
  show "((g, P, format_name, initial_quality, st'), (g, P, format_name, initial_quality, st))
          \<in> measures [\<lambda>(g, P, f, iq, st). max_resize_attempts - resize_count st,
                       \<lambda>(g, P, f, iq, st). nat (quality st - MIN_QUALITY g)]"
    by auto
qed

declare reduce_loop.simps [simp del]

text \<open>The body of \<^verbatim>\<open>while current_size < TARGET_MIN_SIZE_KB and quality < 98\<close> (lines 230-245).\<close>

definition increase_pass :: "globals \<Rightarrow> pil \<Rightarrow> string \<Rightarrow> opt_state \<Rightarrow> pass" where
  "increase_pass g P format_name st =
     (let q5 = quality st + 5;
          q = (if q5 > 98 then 98 else q5);
          w = width (current_img st);
          h = height (current_img st);
          r = save_size P (current_img st) format_name q
      in case r of
           Inl e \<Rightarrow> Leave [Save w h q r] (Inl e)
         | Inr b \<Rightarrow>
             (let new_size = kb b
              in if new_size > of_int (MAX_SIZE_KB g) then
                   (let q' = q - 5;
                        r' = save_size P (current_img st) format_name q'
                    in case r' of
                         Inl e \<Rightarrow> Leave [Save w h q r, Save w h q' r'] (Inl e)
                       | Inr b' \<Rightarrow>
                           Leave [Save w h q r, Save w h q' r']
                             (Inr (st\<lparr>quality := q', current_size := kb b'\<rparr>)))
                 else Continue [Save w h q r] (st\<lparr>quality := q, current_size := new_size\<rparr>)))"

lemma increase_pass_increases:
  assumes "increase_pass g P format_name st = Continue evs st'" and "quality st < 98"
  shows "quality st < quality st' \<and> quality st' \<le> 98"
  using assms
  by (auto simp: increase_pass_def Let_def split: if_splits sum.splits)

function increase_loop ::
  "globals \<Rightarrow> pil \<Rightarrow> string \<Rightarrow> opt_state \<Rightarrow> event list \<times> (exn + opt_state)" where
  "increase_loop g P format_name st =
     (if current_size st < of_int (TARGET_MIN_SIZE_KB g) \<and> quality st < 98 then
        (case increase_pass g P format_name st of
           Leave evs r \<Rightarrow> (evs, r)
         | Continue evs st' \<Rightarrow>
             (case increase_loop g P format_name st' of
                (tr, r) \<Rightarrow> (evs @ tr, r)))
      else ([], Inr st))"
  by pat_completeness auto

termination
proof (relation "measure (\<lambda>(g, P, f, st). nat (98 - quality st))")
  show "wf (measure (\<lambda>(g, P, f, st). nat (98 - quality st)))"
    by simp
next
  fix g P format_name st evs st'
  assume "current_size st < of_int (TARGET_MIN_SIZE_KB g) \<and> quality st < 98"
    and "increase_pass g P format_name st = Continue evs st'"
  then have "quality st < quality st' \<and> quality st' \<le> 98"
    using increase_pass_increases by blast
  then show "((g, P, format_name, st'), (g, P, format_name, st))
          \<in> measure (\<lambda>(g, P, f, st). nat (98 - quality st))"
    by simp
qed

declare increase_loop.simps [simp del]

text \<open>
  The working copy: \<^verbatim>\<open>img.copy()\<close>, flattened to RGB when the format is JPEG and the image
  has an alpha channel (lines 187-192).
\<close>

definition working_copy :: "pil \<Rightarrow> image \<Rightarrow> string \<Rightarrow> exn + image" where
  "working_copy P img format_name =
     (if upper format_name = ''JPEG'' \<and> mode img = ''RGBA''
      then (case convert_rgb P img of
              Inl e \<Rightarrow> Inl e
            | Inr px \<Rightarrow> Inr (img\<lparr>mode := ''RGB'', pixels := px\<rparr>))
      else Inr img)"

text \<open>The local variables once the seed encode has written \<open>b\<close> bytes (lines 183-196).\<close>

definition seed_state :: "int \<Rightarrow> image \<Rightarrow> int \<Rightarrow> opt_state" where
  "seed_state initial_quality cur b =
     \<lparr>quality = initial_quality, resize_needed = False, resize_count = 0,
      current_img = cur, current_size = kb b\<rparr>"

text \<open>
  The upward phase (lines 228-245): the loop runs only when the file is below the target
  minimum and no resize was needed.
\<close>

definition increase_phase ::
  "globals \<Rightarrow> pil \<Rightarrow> string \<Rightarrow> opt_state \<Rightarrow> event list \<times> (exn + opt_state)" where
  "increase_phase g P format_name st =
     (if current_size st < of_int (TARGET_MIN_SIZE_KB g) \<and> \<not> resize_needed st
      then increase_loop g P format_name st
      else ([], Inr st))"

text \<open>
  \<^verbatim>\<open>optimize_to_target_size\<close> with the calls it made: the working copy, the seed
  encode, the downward loop, the upward phase.
\<close>

definition optimize_run ::
  "globals \<Rightarrow> pil \<Rightarrow> image \<Rightarrow> string \<Rightarrow> int \<Rightarrow> event list \<times> (exn + opt_state)" where
  "optimize_run g P img format_name initial_quality =
     (case working_copy P img format_name of
        Inl e \<Rightarrow> ([], Inl e)
      | Inr cur \<Rightarrow>
          (let r = save_size P cur format_name initial_quality;
               ev = Save (width cur) (height cur) initial_quality r
           in case r of
                Inl e \<Rightarrow> ([ev], Inl e)
              | Inr b \<Rightarrow>
                  (case reduce_loop g P format_name initial_quality
                          (seed_state initial_quality cur b) of
                     (tr, Inl e) \<Rightarrow> (ev # tr, Inl e)
                   | (tr, Inr st) \<Rightarrow>
                       (case increase_phase g P format_name st of
                          (tr', r') \<Rightarrow> (ev # tr @ tr', r')))))"

text \<open>What \<^verbatim>\<open>optimize_to_target_size\<close> returns: \<^verbatim>\<open>current_size, quality, resize_needed\<close>.\<close>

definition optimize_to_target_size ::
  "globals \<Rightarrow> pil \<Rightarrow> image \<Rightarrow> string \<Rightarrow> int \<Rightarrow> exn + rat \<times> int \<times> bool" where
  "optimize_to_target_size g P img format_name initial_quality =
     (case snd (optimize_run g P img format_name initial_quality) of
        Inl e \<Rightarrow> Inl e
      | Inr st \<Rightarrow> Inr (current_size st, quality st, resize_needed st))"

section \<open>The batch variant\<close>

text \<open>
  The operating system, as far as a job touches it. \<open>mkdir\<close> is
  \<^verbatim>\<open>output_dir.mkdir(exist_ok=True)\<close> (the exception, if it raises), \<open>open_image\<close> is
  \<^verbatim>\<open>Image.open(input_path)\<close> and \<open>getsize\<close> is \<^verbatim>\<open>os.path.getsize(input_path)\<close> of a
  source file. The output files that exist are a set of paths, passed through the jobs:
  an encode that succeeds leaves its output file on disk.
\<close>

record system =
  mkdir :: "string list \<Rightarrow> exn option"
  open_image :: "path \<Rightarrow> exn + image"
  getsize :: "path \<Rightarrow> exn + int"

definition get_output_path :: "globals \<Rightarrow> system \<Rightarrow> path \<Rightarrow> string \<Rightarrow> exn + path" where
  "get_output_path g E input_path format_name =
     (let output_dir = parent input_path @ [USER_INPUT_DIR_NAME g]
      in case mkdir E output_dir of
           Some e \<Rightarrow> Inl e
         | None \<Rightarrow>
             Inr \<lparr>parent = output_dir, stem = stem input_path,
                  suffix = ''.'' @ lower format_name\<rparr>)"

definition preserve_metadata :: "pil \<Rightarrow> image \<Rightarrow> (string \<rightharpoonup> string) option" where
  "preserve_metadata P img =
     (case getexif img of
        None \<Rightarrow> None
      | Some entries \<Rightarrow>
          if entries = [] then None
          else Some (fold (\<lambda>(tag, v) exif_data.
                             case TAGS P tag of
                               None \<Rightarrow> exif_data
                             | Some name \<Rightarrow> exif_data(name \<mapsto> v))
                       entries Map.empty))"

definition get_optimal_workers :: "globals \<Rightarrow> string \<Rightarrow> int" where
  "get_optimal_workers g format_name =
     (if upper format_name = ''AVIF'' then max 1 (min 2 (MAX_WORKERS g div 2))
      else MAX_WORKERS g)"

definition get_initial_quality :: "globals \<Rightarrow> string \<Rightarrow> rat \<Rightarrow> int" where
  "get_initial_quality g format_name original_size =
     (if upper format_name = ''AVIF'' then
        (if original_size > 500 then max (MIN_QUALITY g) (INITIAL_QUALITY g - 20)
         else max (MIN_QUALITY g) (INITIAL_QUALITY g - 15))
      else if original_size > 500 then max (MIN_QUALITY g) (INITIAL_QUALITY g - 10)
      else INITIAL_QUALITY g)"

text \<open>The dictionaries a job returns.\<close>

record original_info =
  orig_path :: path
  orig_size :: rat
  orig_dimensions :: "int \<times> int"

record format_info =
  out_path :: path
  out_size :: rat
  out_quality :: int
  out_savings :: rat
  out_resized :: bool

datatype job_result =
  Success original_info "format_info option" "format_info option"
| Skipped path string
| Error path string

text \<open>
  \<^verbatim>\<open>((original_size - new_size) / original_size) * 100\<close>, which raises on an empty source
  file. The quotient is exact here; the rounding of the doubles is not modelled.
\<close>

definition savings :: "rat \<Rightarrow> rat \<Rightarrow> exn + rat" where
  "savings original_size new_size =
     (if original_size = 0 then Inl ''float division by zero''
      else Inr ((original_size - new_size) / original_size * 100))"

fun saved :: "event \<Rightarrow> bool" where
  "saved (Save w h q (Inr b)) = True"
| "saved (Save w h q (Inl e)) = False"
| "saved (Resize w h) = False"

text \<open>
  One call \<^verbatim>\<open>optimize_to_target_size(img, out, format_name, initial_quality)\<close> inside a job:
  the library calls, tagged with the format, the files on disk afterwards and what the call
  returns.
\<close>

definition run_format ::
  "globals \<Rightarrow> pil \<Rightarrow> image \<Rightarrow> path \<Rightarrow> string \<Rightarrow> int \<Rightarrow> path set
     \<Rightarrow> (string \<times> event) list \<times> path set \<times> (exn + rat \<times> int \<times> bool)" where
  "run_format g P img out format_name initial_quality fs =
     (let tr = fst (optimize_run g P img format_name initial_quality)
      in (map (Pair format_name) tr,
          if list_ex saved tr then insert out fs else fs,
          optimize_to_target_size g P img format_name initial_quality))"

definition format_entry :: "path \<Rightarrow> rat \<times> int \<times> bool \<Rightarrow> rat \<Rightarrow> format_info" where
  "format_entry out res sv =
     (case res of (sz, q, resized) \<Rightarrow>
        \<lparr>out_path = out, out_size = sz, out_quality = q, out_savings = sv, out_resized = resized\<rparr>)"

text \<open>
  The \<^verbatim>\<open>try\<close> block of \<^verbatim>\<open>optimize_image\<close> (lines 258-360): the value returned or the
  exception raised, the library calls made and the output files on disk afterwards.
\<close>

definition optimize_image_try ::
  "globals \<Rightarrow> pil \<Rightarrow> system \<Rightarrow> path set \<Rightarrow> path
     \<Rightarrow> (exn + job_result) \<times> (string \<times> event) list \<times> path set" where
  "optimize_image_try g P E fs input_path =
     (case get_output_path g E input_path ''webp'' of
        Inl e \<Rightarrow> (Inl e, [], fs)
      | Inr webp_path \<Rightarrow>
     (case get_output_path g E input_path ''avif'' of
        Inl e \<Rightarrow> (Inl e, [], fs)
      | Inr avif_path \<Rightarrow>
     if webp_path \<in> fs \<and> avif_path \<in> fs
     then (Inr (Skipped input_path ''Already optimized''), [], fs)
     else
     (case open_image E input_path of
        Inl e \<Rightarrow> (Inl e, [], fs)
      | Inr img \<Rightarrow>
     (let exif_data = preserve_metadata P img
      in
     (case getsize E input_path of
        Inl e \<Rightarrow> (Inl e, [], fs)
      | Inr bytes \<Rightarrow>
     (let original_size = kb bytes;
          original = \<lparr>orig_path = input_path, orig_size = original_size,
                      orig_dimensions = (width img, height img)\<rparr>
      in
      if format_decision g = 1 then
        (let initial_quality = get_initial_quality g ''WEBP'' original_size
         in case run_format g P img webp_path ''WEBP'' initial_quality fs of
              (calls, fs1, Inl e) \<Rightarrow> (Inl e, calls, fs1)
            | (calls, fs1, Inr webp) \<Rightarrow>
                (case savings original_size (fst webp) of
                   Inl e \<Rightarrow> (Inl e, calls, fs1)
                 | Inr webp_savings \<Rightarrow>
                     (Inr (Success original
                             (Some (format_entry webp_path webp webp_savings)) None),
                      calls, fs1)))
      else if format_decision g = 2 then
        (let initial_quality = get_initial_quality g ''AVIF'' original_size
         in case run_format g P img avif_path ''AVIF'' initial_quality fs of
              (calls, fs1, Inl e) \<Rightarrow> (Inl e, calls, fs1)
            | (calls, fs1, Inr avif) \<Rightarrow>
                (case savings original_size (fst avif) of
                   Inl e \<Rightarrow> (Inl e, calls, fs1)
                 | Inr avif_savings \<Rightarrow>
                     (Inr (Success original None
                             (Some (format_entry avif_path avif avif_savings))),
                      calls, fs1)))
      else if format_decision g = 3 then
        (let webp_initial_quality = get_initial_quality g ''WEBP'' original_size;
             avif_initial_quality = get_initial_quality g ''AVIF'' original_size
         in case run_format g P img webp_path ''WEBP'' webp_initial_quality fs of
              (calls, fs1, Inl e) \<Rightarrow> (Inl e, calls, fs1)
            | (calls, fs1, Inr webp) \<Rightarrow>
                (case run_format g P img avif_path ''AVIF'' avif_initial_quality fs1 of
                   (calls', fs2, Inl e) \<Rightarrow> (Inl e, calls @ calls', fs2)
                 | (calls', fs2, Inr avif) \<Rightarrow>
                     (case savings original_size (fst webp) of
                        Inl e \<Rightarrow> (Inl e, calls @ calls', fs2)
                      | Inr webp_savings \<Rightarrow>
                          (case savings original_size (fst avif) of
                             Inl e \<Rightarrow> (Inl e, calls @ calls', fs2)
                           | Inr avif_savings \<Rightarrow>
                               (Inr (Success original
                                       (Some (format_entry webp_path webp webp_savings))
                                       (Some (format_entry avif_path avif avif_savings))),
                                calls @ calls', fs2)))))
      else (Inr (Error input_path ''Invalid format decision''), [], fs)))))))"

text \<open>\<^verbatim>\<open>optimize_image\<close>: the \<^verbatim>\<open>except Exception\<close> handler turns a raise into an error result.\<close>

definition optimize_image ::
  "globals \<Rightarrow> pil \<Rightarrow> system \<Rightarrow> path set \<Rightarrow> path
     \<Rightarrow> job_result \<times> (string \<times> event) list \<times> path set" where
  "optimize_image g P E fs input_path =
     (case optimize_image_try g P E fs input_path of
        (Inl e, calls, fs') \<Rightarrow> (Error input_path e, calls, fs')
      | (Inr result, calls, fs') \<Rightarrow> (result, calls, fs'))"

text \<open>
  The worker pool runs the jobs: here one after the other, in the order of submission.
  The pool of the script runs up to \<^verbatim>\<open>optimal_workers\<close> of them at a time and hands the
  results over as they complete; the counters below do not depend on that order.
\<close>

fun run_jobs ::
  "globals \<Rightarrow> pil \<Rightarrow> system \<Rightarrow> path set \<Rightarrow> path list
     \<Rightarrow> job_result list \<times> (string \<times> event) list \<times> path set" where
  "run_jobs g P E fs [] = ([], [], fs)"
| "run_jobs g P E fs (img_path # rest) =
     (case optimize_image g P E fs img_path of
        (result, calls, fs1) \<Rightarrow>
          (case run_jobs g P E fs1 rest of
             (results, calls', fs2) \<Rightarrow> (result # results, calls @ calls', fs2)))"

text \<open>The dictionary \<^verbatim>\<open>results\<close> of \<^verbatim>\<open>process_batch\<close>, without the two clock readings.\<close>

record batch_results =
  total :: int
  successful :: int
  skipped :: int
  failed :: int
  details :: "job_result list"
  total_savings_webp :: rat
  total_savings_avif :: rat
  average_savings_webp :: rat
  average_savings_avif :: rat

text \<open>\<^verbatim>\<open>result.get(key, {}).get("savings", 0)\<close> on an entry of a successful job.\<close>

definition savings_of :: "format_info option \<Rightarrow> rat" where
  "savings_of entry = (case entry of None \<Rightarrow> 0 | Some info \<Rightarrow> out_savings info)"

text \<open>
  The body of the loop over the completed futures (lines 414-429). A job never raises
  (\<^verbatim>\<open>optimize_image\<close> catches every exception), so the handler around
  \<^verbatim>\<open>future.result()\<close> has no case here.
\<close>

fun tally :: "globals \<Rightarrow> job_result \<Rightarrow> batch_results \<Rightarrow> batch_results" where
  "tally g (Success original webp avif) results =
     (let results = results\<lparr>details := details results @ [Success original webp avif],
                             successful := successful results + 1\<rparr>
      in if format_decision g = 1 then
           results\<lparr>total_savings_webp := total_savings_webp results + savings_of webp\<rparr>
         else if format_decision g = 2 then
           results\<lparr>total_savings_avif := total_savings_avif results + savings_of avif\<rparr>
         else
           results\<lparr>total_savings_webp := total_savings_webp results + savings_of webp,
                   total_savings_avif := total_savings_avif results + savings_of avif\<rparr>)"
| "tally g (Skipped p reason) results =
     results\<lparr>details := details results @ [Skipped p reason], skipped := skipped results + 1\<rparr>"
| "tally g (Error p e) results =
     results\<lparr>details := details results @ [Error p e], failed := failed results + 1\<rparr>"

text \<open>
  A run of \<^verbatim>\<open>process_batch\<close>: the dictionary it returns, the \<^verbatim>\<open>max_workers\<close> it gives the
  \<^verbatim>\<open>ThreadPoolExecutor\<close> (line 405), the library calls of its jobs and the output files on
  disk afterwards.
\<close>

record batch_run =
  results :: batch_results
  pool_workers :: int
  calls :: "(string \<times> event) list"
  files :: "path set"

definition process_batch ::
  "globals \<Rightarrow> pil \<Rightarrow> system \<Rightarrow> path set \<Rightarrow> path list \<Rightarrow> int \<Rightarrow> batch_run" where
  "process_batch g P E fs image_files max_workers =
     (let results0 = \<lparr>total = int (length image_files), successful = 0, skipped = 0,
                       failed = 0, details = [], total_savings_webp = 0,
                       total_savings_avif = 0, average_savings_webp = 0,
                       average_savings_avif = 0\<rparr>;
          optimal_workers = get_optimal_workers g (if format_decision g = 2 then ''AVIF'' else ''WEBP'')
      in case run_jobs g P E fs image_files of
           (job_results, job_calls, fs') \<Rightarrow>
             (let results1 = fold (tally g) job_results results0;
                  results2 =
                    (if successful results1 > 0 then
                       results1\<lparr>average_savings_webp :=
                                   total_savings_webp results1 / of_int (successful results1),
                                 average_savings_avif :=
                                   total_savings_avif results1 / of_int (successful results1)\<rparr>
                     else results1\<lparr>average_savings_webp := 0, average_savings_avif := 0\<rparr>)
              in \<lparr>results = results2, pool_workers = optimal_workers, calls = job_calls,
                  files = fs'\<rparr>))"




section \<open>The single-image variant\<close>

text \<open>
  \<^verbatim>\<open>optimizer.py\<close> assigns the first six module names the same values and writes to the
  directory \<^verbatim>\<open>optimized\<close>; it has neither \<^verbatim>\<open>MAX_WORKERS\<close> nor \<^verbatim>\<open>format_decision\<close>, which
  none of its functions reads.
\<close>

definition single_globals :: globals where
  "single_globals = module_globals ''optimized'' 3"

record single_result =
  original :: original_info
  webp :: format_info
  avif :: format_info

text \<open>The \<^verbatim>\<open>try\<close> block of \<^verbatim>\<open>optimize_image\<close> in \<^verbatim>\<open>optimizer.py\<close> (lines 198-245).\<close>

definition single_optimize_image_try ::
  "globals \<Rightarrow> pil \<Rightarrow> system \<Rightarrow> path set \<Rightarrow> path
     \<Rightarrow> (exn + single_result) \<times> (string \<times> event) list \<times> path set" where
  "single_optimize_image_try g P E fs input_path =
     (case open_image E input_path of
        Inl e \<Rightarrow> (Inl e, [], fs)
      | Inr img \<Rightarrow>
     (let exif_data = preserve_metadata P img
      in
     (case getsize E input_path of
        Inl e \<Rightarrow> (Inl e, [], fs)
      | Inr bytes \<Rightarrow>
     (let original_size = kb bytes;
          initial_quality =
            (if original_size > 500 then max (MIN_QUALITY g) (INITIAL_QUALITY g - 10)
             else INITIAL_QUALITY g)
      in
     (case get_output_path g E input_path ''webp'' of
        Inl e \<Rightarrow> (Inl e, [], fs)
      | Inr webp_path \<Rightarrow>
     (case run_format g P img webp_path ''WEBP'' initial_quality fs of
        (calls1, fs1, Inl e) \<Rightarrow> (Inl e, calls1, fs1)
      | (calls1, fs1, Inr webp_res) \<Rightarrow>
     (case get_output_path g E input_path ''avif'' of
        Inl e \<Rightarrow> (Inl e, calls1, fs1)
      | Inr avif_path \<Rightarrow>
     (case run_format g P img avif_path ''AVIF'' initial_quality fs1 of
        (calls2, fs2, Inl e) \<Rightarrow> (Inl e, calls1 @ calls2, fs2)
      | (calls2, fs2, Inr avif_res) \<Rightarrow>
     (case savings original_size (fst webp_res) of
        Inl e \<Rightarrow> (Inl e, calls1 @ calls2, fs2)
      | Inr webp_savings \<Rightarrow>
     (case savings original_size (fst avif_res) of
        Inl e \<Rightarrow> (Inl e, calls1 @ calls2, fs2)
      | Inr avif_savings \<Rightarrow>
          (Inr \<lparr>original = \<lparr>orig_path = input_path, orig_size = original_size,
                              orig_dimensions = (width img, height img)\<rparr>,
                 webp = format_entry webp_path webp_res webp_savings,
                 avif = format_entry avif_path avif_res avif_savings\<rparr>,
           calls1 @ calls2, fs2)))))))))))"

text \<open>The handler returns \<^verbatim>\<open>None\<close> on every exception.\<close>

definition single_optimize_image ::
  "globals \<Rightarrow> pil \<Rightarrow> system \<Rightarrow> path set \<Rightarrow> path
     \<Rightarrow> single_result option \<times> (string \<times> event) list \<times> path set" where
  "single_optimize_image g P E fs input_path =
     (case single_optimize_image_try g P E fs input_path of
        (Inl e, calls1, fs') \<Rightarrow> (None, calls1, fs')
      | (Inr result, calls1, fs') \<Rightarrow> (Some result, calls1, fs'))"

section \<open>Properties of a sequence of library calls\<close>

fun is_resize :: "event \<Rightarrow> bool" where
  "is_resize (Resize w h) = True"
| "is_resize (Save w h q r) = False"

definition resize_attempts :: "event list \<Rightarrow> nat" where
  "resize_attempts tr = length (filter is_resize tr)"

text \<open>The qualities of the encode attempts, in order.\<close>

fun qualities :: "event list \<Rightarrow> int list" where
  "qualities [] = []"
| "qualities (Save w h q r # es) = q # qualities es"
| "qualities (Resize w h # es) = qualities es"

text \<open>
  Every resize attempt comes right after an encode attempt at quality \<open>m\<close>: \<open>last_q\<close> is
  the quality of the encode attempt just before the calls looked at, if that was an
  encode attempt.
\<close>

fun resizes_at_floor :: "int \<Rightarrow> int option \<Rightarrow> event list \<Rightarrow> bool" where
  "resizes_at_floor m last_q [] = True"
| "resizes_at_floor m last_q (Save w h q r # es) = resizes_at_floor m (Some q) es"
| "resizes_at_floor m last_q (Resize w h # es) =
     (last_q = Some m \<and> resizes_at_floor m None es)"




text \<open>A quality between the floor \<open>m\<close> and the cap 98.\<close>

definition in_range :: "int \<Rightarrow> int \<Rightarrow> bool" where
  "in_range m q = (m \<le> q \<and> q \<le> 98)"

text \<open>The calls made for a format, in the calls of a job.\<close>

definition calls_of :: "string \<Rightarrow> (string \<times> event) list \<Rightarrow> event list" where
  "calls_of format_name cs = map snd (filter (\<lambda>c. fst c = format_name) cs)"

text \<open>
  The calls of a run start at quality \<open>q\<close>: there is none, or the first one is an encode
  attempt at \<open>q\<close>.
\<close>

fun starts_at :: "int \<Rightarrow> event list \<Rightarrow> bool" where
  "starts_at q [] = True"
| "starts_at q (Save w h q' r # es) = (q' = q)"
| "starts_at q (Resize w h # es) = False"


section \<open>Inputs for the examples\<close>

text \<open>An encoder whose output grows with the area and the quality.\<close>

definition area_pil :: pil where
  "area_pil =
     \<lparr>save_size = (\<lambda>img f q. Inr (width img * height img * q)),
      resize_pixels = (\<lambda>img w h. Inr 0), convert_rgb = (\<lambda>img. Inr 0),
      TAGS = [271 \<mapsto> ''Make'']\<rparr>"

text \<open>An encoder that writes 20 KB below quality 98 and 150 KB from there on.\<close>

definition cliff_pil :: pil where
  "cliff_pil =
     \<lparr>save_size = (\<lambda>img f q. Inr (if q < 98 then 20480 else 153600)),
      resize_pixels = (\<lambda>img w h. Inr 0), convert_rgb = (\<lambda>img. Inr 0),
      TAGS = [271 \<mapsto> ''Make'']\<rparr>"

text \<open>An encoder that always writes 95 KB.\<close>

definition flat_pil :: pil where
  "flat_pil =
     \<lparr>save_size = (\<lambda>img f q. Inr 97280),
      resize_pixels = (\<lambda>img w h. Inr 0), convert_rgb = (\<lambda>img. Inr 0),
      TAGS = [271 \<mapsto> ''Make'']\<rparr>"



definition photo :: image where
  "photo = \<lparr>width = 100, height = 100, mode = ''RGB'', pixels = 0,
            getexif = Some [(271, ''Canon'')]\<rparr>"

definition a_png :: path where
  "a_png = \<lparr>parent = [''pics''], stem = ''a'', suffix = ''.png''\<rparr>"

text \<open>A machine on which every source file is the photo above, 200 KB on disk.\<close>

definition desk :: system where
  "desk = \<lparr>mkdir = (\<lambda>d. None), open_image = (\<lambda>p. Inr photo), getsize = (\<lambda>p. Inr 204800)\<rparr>"

section \<open>Rules for the two loops\<close>

text \<open>
  An invariant \<open>I\<close> of the loop body and a property \<open>Q\<close> of the calls made and the result
  reached from a state: \<open>Q\<close> holds of the whole loop when it holds where the loop is
  left and is carried backwards over each pass.
\<close>

lemma reduce_loop_rule:
  assumes "I st"
    and "\<And>st. I st \<Longrightarrow> \<not> current_size st > of_int (MAX_SIZE_KB g) \<Longrightarrow> Q st [] (Inr st)"
    and "\<And>st evs r. I st \<Longrightarrow> current_size st > of_int (MAX_SIZE_KB g) \<Longrightarrow>
           reduce_pass g P f iq st = Leave evs r \<Longrightarrow> Q st evs r"
    and "\<And>st evs st'. I st \<Longrightarrow> current_size st > of_int (MAX_SIZE_KB g) \<Longrightarrow>
           reduce_pass g P f iq st = Continue evs st' \<Longrightarrow> I st'"
    and "\<And>st evs st' tr r. I st \<Longrightarrow> current_size st > of_int (MAX_SIZE_KB g) \<Longrightarrow>
           reduce_pass g P f iq st = Continue evs st' \<Longrightarrow> Q st' tr r \<Longrightarrow> Q st (evs @ tr) r"
  shows "Q st (fst (reduce_loop g P f iq st)) (snd (reduce_loop g P f iq st))"
  using assms
proof (induction g P f iq st rule: reduce_loop.induct)
  case (1 g P f iq st)
  note inv = "1.prems"(1) and base = "1.prems"(2) and leave = "1.prems"(3)
    and keep = "1.prems"(4) and cont = "1.prems"(5)
  show ?case
  proof (cases "current_size st > of_int (MAX_SIZE_KB g)")
    case False
    then have "reduce_loop g P f iq st = ([], Inr st)"
      by (subst reduce_loop.simps) simp
    with base [OF inv False] show ?thesis by simp
  next
    case True
    show ?thesis
    proof (cases "reduce_pass g P f iq st")
      case (Leave evs r)
      with True have "reduce_loop g P f iq st = (evs, r)"
        by (subst reduce_loop.simps) simp
      with leave [OF inv True Leave] show ?thesis by simp
    next
      case (Continue evs st')
      have inv': "I st'"
        using keep [OF inv True Continue] .
      have IH: "Q st' (fst (reduce_loop g P f iq st')) (snd (reduce_loop g P f iq st'))"
        using "1.IH" [OF True Continue inv' base leave keep cont] .
      have "reduce_loop g P f iq st =
              (evs @ fst (reduce_loop g P f iq st'), snd (reduce_loop g P f iq st'))"
        by (subst reduce_loop.simps) (simp add: True Continue split: prod.splits)
      with cont [OF inv True Continue IH] show ?thesis by simp
    qed
  qed
qed

lemma increase_loop_rule:
  assumes "I st"
    and "\<And>st. I st \<Longrightarrow>
           \<not> (current_size st < of_int (TARGET_MIN_SIZE_KB g) \<and> quality st < 98) \<Longrightarrow>
           Q st [] (Inr st)"
    and "\<And>st evs r. I st \<Longrightarrow>
           current_size st < of_int (TARGET_MIN_SIZE_KB g) \<and> quality st < 98 \<Longrightarrow>
           increase_pass g P f st = Leave evs r \<Longrightarrow> Q st evs r"
    and "\<And>st evs st'. I st \<Longrightarrow>
           current_size st < of_int (TARGET_MIN_SIZE_KB g) \<and> quality st < 98 \<Longrightarrow>
           increase_pass g P f st = Continue evs st' \<Longrightarrow> I st'"
    and "\<And>st evs st' tr r. I st \<Longrightarrow>
           current_size st < of_int (TARGET_MIN_SIZE_KB g) \<and> quality st < 98 \<Longrightarrow>
           increase_pass g P f st = Continue evs st' \<Longrightarrow> Q st' tr r \<Longrightarrow>
           Q st (evs @ tr) r"
  shows "Q st (fst (increase_loop g P f st)) (snd (increase_loop g P f st))"
  using assms
proof (induction g P f st rule: increase_loop.induct)
  case (1 g P f st)
  note inv = "1.prems"(1) and base = "1.prems"(2) and leave = "1.prems"(3)
    and keep = "1.prems"(4) and cont = "1.prems"(5)
  show ?case
  proof (cases "current_size st < of_int (TARGET_MIN_SIZE_KB g) \<and> quality st < 98")
    case False
    then have "increase_loop g P f st = ([], Inr st)"
      by (subst increase_loop.simps) auto
    with base [OF inv False] show ?thesis by simp
  next
    case True
    show ?thesis
    proof (cases "increase_pass g P f st")
      case (Leave evs r)
      with True have "increase_loop g P f st = (evs, r)"
        by (subst increase_loop.simps) auto
      with leave [OF inv True Leave] show ?thesis by simp
    next
      case (Continue evs st')
      have inv': "I st'"
        using keep [OF inv True Continue] .
      have IH: "Q st' (fst (increase_loop g P f st')) (snd (increase_loop g P f st'))"
        using "1.IH" [OF True Continue inv' base leave keep cont] .
      have "increase_loop g P f st =
              (evs @ fst (increase_loop g P f st'), snd (increase_loop g P f st'))"
        using True Continue by (subst increase_loop.simps) (auto split: prod.splits)
      with cont [OF inv True Continue IH] show ?thesis by simp
    qed
  qed
qed

section \<open>The shape of a run\<close>

lemma optimize_run_unseeded:
  "working_copy P img f = Inl e \<Longrightarrow> optimize_run g P img f iq = ([], Inl e)"
  "working_copy P img f = Inr cur \<Longrightarrow> save_size P cur f iq = Inl e \<Longrightarrow>
     optimize_run g P img f iq = ([Save (width cur) (height cur) iq (Inl e)], Inl e)"
  by (simp_all add: optimize_run_def Let_def)

lemma optimize_run_seeded:
  assumes "working_copy P img f = Inr cur" and "save_size P cur f iq = Inr b"
  shows "optimize_run g P img f iq =
           (case snd (reduce_loop g P f iq (seed_state iq cur b)) of
              Inl e \<Rightarrow>
                (Save (width cur) (height cur) iq (Inr b)
                   # fst (reduce_loop g P f iq (seed_state iq cur b)), Inl e)
            | Inr st \<Rightarrow>
                (Save (width cur) (height cur) iq (Inr b)
                   # fst (reduce_loop g P f iq (seed_state iq cur b))
                   @ fst (increase_phase g P f st),
                 snd (increase_phase g P f st)))"
  using assms by (auto simp: optimize_run_def Let_def split: prod.splits sum.splits)

lemma module_globals_simps [simp]:
  "TARGET_MIN_SIZE_KB (module_globals d k) = 30"
  "TARGET_MAX_SIZE_KB (module_globals d k) = 90"
  "MAX_SIZE_KB (module_globals d k) = 100"
  "INITIAL_QUALITY (module_globals d k) = 80"
  "MIN_QUALITY (module_globals d k) = 30"
  "RESIZE_FACTOR (module_globals d k) = 8 / 10"
  "MAX_WORKERS (module_globals d k) = 4"
  "USER_INPUT_DIR_NAME (module_globals d k) = d"
  "format_decision (module_globals d k) = k"
  by (simp_all add: module_globals_def)

lemma upper_names [simp]:
  "upper ''WEBP'' = ''WEBP''" "upper ''AVIF'' = ''AVIF''"
  by code_simp+

lemma lower_names [simp]:
  "lower ''webp'' = ''webp''" "lower ''avif'' = ''avif''"
  by code_simp+

lemma optimize_run_first: "starts_at iq (fst (optimize_run g P img f iq))"
proof (cases "working_copy P img f")
  case (Inl e)
  then show ?thesis by (simp add: optimize_run_unseeded)
next
  case (Inr cur)
  then show ?thesis
    by (cases "save_size P cur f iq")
       (auto simp: optimize_run_def Let_def split: prod.splits sum.splits)
qed

section \<open>The calls of a job\<close>

text \<open>
  A job makes no call, or it has read the size of the source and made the calls of one
  run of the optimizer per requested format, WEBP first, each from the initial quality of
  its variant.
\<close>

lemma batch_calls_shape:
  "\<exists>img wp ap fs1 bytes.
     fst (snd (optimize_image g P E fs p)) = [] \<or>
     getsize E p = Inr bytes \<and>
     (fst (snd (optimize_image g P E fs p)) =
        fst (run_format g P img wp ''WEBP'' (get_initial_quality g ''WEBP'' (kb bytes)) fs) \<or>
      fst (snd (optimize_image g P E fs p)) =
        fst (run_format g P img ap ''AVIF'' (get_initial_quality g ''AVIF'' (kb bytes)) fs) \<or>
      fst (snd (optimize_image g P E fs p)) =
        fst (run_format g P img wp ''WEBP'' (get_initial_quality g ''WEBP'' (kb bytes)) fs)
        @ fst (run_format g P img ap ''AVIF'' (get_initial_quality g ''AVIF'' (kb bytes)) fs1))"
proof -
  let ?calls = "fst (snd (optimize_image g P E fs p))"
  have calls: "?calls = fst (snd (optimize_image_try g P E fs p))"
    by (simp add: optimize_image_def split: prod.splits sum.splits)
  consider (none) "?calls = []"
    | (some) wp ap img bytes where "get_output_path g E p ''webp'' = Inr wp"
        and "get_output_path g E p ''avif'' = Inr ap" and "open_image E p = Inr img"
        and "getsize E p = Inr bytes"
    unfolding calls
    by (cases "get_output_path g E p ''webp''"; cases "get_output_path g E p ''avif''";
        cases "open_image E p"; cases "getsize E p")
       (simp_all add: optimize_image_try_def Let_def)
  then show ?thesis
  proof cases
    case none
    then show ?thesis by blast
  next
    case some
    let ?W = "run_format g P img wp ''WEBP'' (get_initial_quality g ''WEBP'' (kb bytes)) fs"
    let ?A = "run_format g P img ap ''AVIF'' (get_initial_quality g ''AVIF'' (kb bytes))"
    have "?calls = [] \<or> ?calls = fst ?W \<or> ?calls = fst (?A fs) \<or>
          ?calls = fst ?W @ fst (?A (fst (snd ?W)))"
      unfolding calls using some
      by (simp add: optimize_image_try_def Let_def split: sum.splits prod.splits)
    with some(4) show ?thesis by blast
  qed
qed

lemma single_calls_shape:
  "\<exists>img wp ap fs1 bytes.
     fst (snd (single_optimize_image g P E fs p)) = [] \<or>
     getsize E p = Inr bytes \<and>
     (fst (snd (single_optimize_image g P E fs p)) =
        fst (run_format g P img wp ''WEBP''
               (if kb bytes > 500 then max (MIN_QUALITY g) (INITIAL_QUALITY g - 10)
                else INITIAL_QUALITY g) fs) \<or>
      fst (snd (single_optimize_image g P E fs p)) =
        fst (run_format g P img wp ''WEBP''
               (if kb bytes > 500 then max (MIN_QUALITY g) (INITIAL_QUALITY g - 10)
                else INITIAL_QUALITY g) fs)
        @ fst (run_format g P img ap ''AVIF''
                 (if kb bytes > 500 then max (MIN_QUALITY g) (INITIAL_QUALITY g - 10)
                  else INITIAL_QUALITY g) fs1))"
proof -
  let ?calls = "fst (snd (single_optimize_image g P E fs p))"
  have calls: "?calls = fst (snd (single_optimize_image_try g P E fs p))"
    by (simp add: single_optimize_image_def split: prod.splits sum.splits)
  consider (none) "?calls = []"
    | (some) wp img bytes where "get_output_path g E p ''webp'' = Inr wp"
        and "open_image E p = Inr img" and "getsize E p = Inr bytes"
    unfolding calls
    by (cases "get_output_path g E p ''webp''"; cases "open_image E p"; cases "getsize E p")
       (simp_all add: single_optimize_image_try_def Let_def)
  then show ?thesis
  proof cases
    case none
    then show ?thesis by blast
  next
    case some
    let ?q = "if kb bytes > 500 then max (MIN_QUALITY g) (INITIAL_QUALITY g - 10)
              else INITIAL_QUALITY g"
    let ?W = "run_format g P img wp ''WEBP'' ?q fs"
    show ?thesis
    proof (cases "get_output_path g E p ''avif''")
      case (Inl e)
      have "?calls = fst ?W"
        unfolding calls using some Inl
        by (simp add: single_optimize_image_try_def Let_def split: sum.splits prod.splits)
      with some(3) show ?thesis by blast
    next
      case (Inr ap)
      let ?A = "run_format g P img ap ''AVIF'' ?q (fst (snd ?W))"
      have "?calls = fst ?W \<or> ?calls = fst ?W @ fst ?A"
        unfolding calls using some Inr
        by (simp add: single_optimize_image_try_def Let_def split: sum.splits prod.splits)
      with some(3) show ?thesis by blast
    qed
  qed
qed

lemma calls_of_append: "calls_of f (xs @ ys) = calls_of f xs @ calls_of f ys"
  by (simp add: calls_of_def)

lemma calls_of_nil: "calls_of f [] = []"
  by (simp add: calls_of_def)

lemma calls_of_own:
  "calls_of f (fst (run_format g P img out f iq fs)) = fst (optimize_run g P img f iq)"
  by (simp add: calls_of_def run_format_def Let_def filter_map comp_def)

lemma calls_of_other:
  "f \<noteq> f' \<Longrightarrow> calls_of f (fst (run_format g P img out f' iq fs)) = []"
  by (auto simp: calls_of_def run_format_def Let_def filter_map comp_def filter_empty_conv)

text \<open>
  A property of the calls of one run of the optimizer that is true of the empty sequence
  is true of the calls that a job makes for a format.
\<close>

lemma batch_job_calls:
  assumes "R []"
    and "\<And>img bytes. getsize E p = Inr bytes \<Longrightarrow>
           R (fst (optimize_run g P img f (get_initial_quality g f (kb bytes))))"
  shows "R (calls_of f (fst (snd (optimize_image g P E fs p))))"
proof -
  let ?calls = "fst (snd (optimize_image g P E fs p))"
  from batch_calls_shape [of g P E fs p] obtain img wp ap fs1 bytes where shape:
    "?calls = [] \<or>
     getsize E p = Inr bytes \<and>
     (?calls = fst (run_format g P img wp ''WEBP'' (get_initial_quality g ''WEBP'' (kb bytes)) fs) \<or>
      ?calls = fst (run_format g P img ap ''AVIF'' (get_initial_quality g ''AVIF'' (kb bytes)) fs) \<or>
      ?calls = fst (run_format g P img wp ''WEBP'' (get_initial_quality g ''WEBP'' (kb bytes)) fs)
        @ fst (run_format g P img ap ''AVIF'' (get_initial_quality g ''AVIF'' (kb bytes)) fs1))"
    by blast
  show ?thesis
  proof (cases "?calls = []")
    case True
    with assms(1) show ?thesis by (simp add: calls_of_nil)
  next
    case False
    with shape have size: "getsize E p = Inr bytes" by blast
    note own = assms(2) [OF size, of img]
    have one: "R (calls_of f (fst (run_format g P img out f' (get_initial_quality g f' (kb bytes)) fs')))"
      for out f' fs'
      using assms(1) own
      by (cases "f = f'") (simp_all add: calls_of_own calls_of_other)
    have two: "R (calls_of f
        (fst (run_format g P img wp ''WEBP'' (get_initial_quality g ''WEBP'' (kb bytes)) fs)
         @ fst (run_format g P img ap ''AVIF'' (get_initial_quality g ''AVIF'' (kb bytes)) fs1)))"
      using assms(1) own
      by (cases "f = ''WEBP''"; cases "f = ''AVIF''")
         (simp_all add: calls_of_append calls_of_own calls_of_other)
    from shape False one two show ?thesis
      by (elim disjE conjE) simp_all
  qed
qed

lemma single_job_calls:
  assumes "R []"
    and "\<And>img bytes. getsize E p = Inr bytes \<Longrightarrow>
           R (fst (optimize_run g P img f
                     (if kb bytes > 500 then max (MIN_QUALITY g) (INITIAL_QUALITY g - 10)
                      else INITIAL_QUALITY g)))"
  shows "R (calls_of f (fst (snd (single_optimize_image g P E fs p))))"
proof -
  let ?calls = "fst (snd (single_optimize_image g P E fs p))"
  from single_calls_shape [of g P E fs p] obtain img wp ap fs1 bytes where shape:
    "?calls = [] \<or>
     getsize E p = Inr bytes \<and>
     (?calls = fst (run_format g P img wp ''WEBP''
               (if kb bytes > 500 then max (MIN_QUALITY g) (INITIAL_QUALITY g - 10)
                else INITIAL_QUALITY g) fs) \<or>
      ?calls = fst (run_format g P img wp ''WEBP''
               (if kb bytes > 500 then max (MIN_QUALITY g) (INITIAL_QUALITY g - 10)
                else INITIAL_QUALITY g) fs)
        @ fst (run_format g P img ap ''AVIF''
                 (if kb bytes > 500 then max (MIN_QUALITY g) (INITIAL_QUALITY g - 10)
                  else INITIAL_QUALITY g) fs1))"
    by blast
  let ?q = "if kb bytes > 500 then max (MIN_QUALITY g) (INITIAL_QUALITY g - 10)
            else INITIAL_QUALITY g"
  show ?thesis
  proof (cases "?calls = []")
    case True
    with assms(1) show ?thesis by (simp add: calls_of_nil)
  next
    case False
    with shape have size: "getsize E p = Inr bytes" by blast
    note own = assms(2) [OF size, of img]
    have one: "R (calls_of f (fst (run_format g P img out f' ?q fs')))" for out f' fs'
      using assms(1) own
      by (cases "f = f'") (simp_all add: calls_of_own calls_of_other)
    have two: "R (calls_of f (fst (run_format g P img wp ''WEBP'' ?q fs)
                               @ fst (run_format g P img ap ''AVIF'' ?q fs1)))"
      using assms(1) own
      by (cases "f = ''WEBP''"; cases "f = ''AVIF''")
         (simp_all add: calls_of_append calls_of_own calls_of_other)
    from shape False one two show ?thesis
      by (elim disjE conjE) simp_all
  qed
qed

section \<open>The upward phase never resizes\<close>

lemma increase_pass_saves:
  "increase_pass g P f st = Continue evs st' \<Longrightarrow> \<forall>e\<in>set evs. \<not> is_resize e"
  "increase_pass g P f st = Leave evs r \<Longrightarrow> \<forall>e\<in>set evs. \<not> is_resize e"
  by (auto simp: increase_pass_def Let_def split: if_splits sum.splits)

lemma increase_loop_saves: "\<forall>e\<in>set (fst (increase_loop g P f st)). \<not> is_resize e"
  by (rule increase_loop_rule [where I = "\<lambda>st. True"
        and Q = "\<lambda>st tr r. \<forall>e\<in>set tr. \<not> is_resize e"])
     (auto dest: increase_pass_saves)

lemma increase_phase_saves: "\<forall>e\<in>set (fst (increase_phase g P f st)). \<not> is_resize e"
  using increase_loop_saves by (simp add: increase_phase_def)

section \<open>Resizing is the fallback\<close>

lemma saves_at_floor: "\<forall>e\<in>set tr. \<not> is_resize e \<Longrightarrow> resizes_at_floor m l tr"
  by (induction m l tr rule: resizes_at_floor.induct) auto

lemma resizes_at_floor_append:
  "resizes_at_floor m l tr \<Longrightarrow> \<forall>e\<in>set tr'. \<not> is_resize e \<Longrightarrow> resizes_at_floor m l (tr @ tr')"
  by (induction m l tr rule: resizes_at_floor.induct) (auto intro: saves_at_floor)

lemma reduce_loop_floor:
  assumes "MIN_QUALITY g \<le> quality st" and "MIN_QUALITY g \<le> iq"
  shows "resizes_at_floor (MIN_QUALITY g) (Some (quality st)) (fst (reduce_loop g P f iq st))"
  by (rule reduce_loop_rule [where I = "\<lambda>st. MIN_QUALITY g \<le> quality st"
        and Q = "\<lambda>st tr r. resizes_at_floor (MIN_QUALITY g) (Some (quality st)) tr"])
     (use assms in \<open>auto simp: reduce_pass_def Let_def split: if_splits sum.splits\<close>)

lemma optimize_run_floor:
  assumes "MIN_QUALITY g \<le> iq"
  shows "resizes_at_floor (MIN_QUALITY g) None (fst (optimize_run g P img f iq))"
proof (cases "working_copy P img f")
  case (Inl e)
  then show ?thesis by (simp add: optimize_run_unseeded)
next
  case (Inr cur)
  show ?thesis
  proof (cases "save_size P cur f iq")
    case (Inl e)
    with Inr show ?thesis by (simp add: optimize_run_unseeded)
  next
    case b: (Inr b)
    have down: "resizes_at_floor (MIN_QUALITY g) (Some iq)
                  (fst (reduce_loop g P f iq (seed_state iq cur b)))"
      using reduce_loop_floor [of g "seed_state iq cur b" iq P f] assms
      by (simp add: seed_state_def)
    show ?thesis
      using down increase_phase_saves [of g P f]
      by (auto simp: optimize_run_seeded [OF Inr b] split: sum.splits
            intro: resizes_at_floor_append)
  qed
qed

text \<open>
  C3. In every run of the optimizer that starts at a quality of at least
  \<^verbatim>\<open>MIN_QUALITY\<close> = 30, each resize attempt comes right after an encode attempt at
  quality 30: the quality is driven to the floor before the first resize, and again
  after each resize before the next one. Every job of the batch variant and of the
  single-image variant starts its runs at 60 or more, so this holds of the calls that
  any job makes for a format.
\<close>

theorem resize_only_after_floor:
  "(30 \<le> initial_quality \<longrightarrow>
      resizes_at_floor 30 None
        (fst (optimize_run (module_globals dir_name decision) P img format_name initial_quality))) \<and>
   resizes_at_floor 30 None (calls_of format_name (fst (snd (optimize_image (module_globals dir_name decision) P E fs p)))) \<and>
   resizes_at_floor 30 None (calls_of format_name (fst (snd (single_optimize_image single_globals P E fs p))))"
proof -
  have run: "resizes_at_floor 30 None (fst (optimize_run (module_globals d k) P img f iq))"
    if "30 \<le> iq" for d k img f iq
    using optimize_run_floor [of "module_globals d k" iq] that by simp
  have batch: "resizes_at_floor 30 None (calls_of format_name (fst (snd (optimize_image (module_globals dir_name decision) P E fs p))))"
    by (rule batch_job_calls) (simp_all add: run get_initial_quality_def)
  have single: "resizes_at_floor 30 None (calls_of format_name (fst (snd (single_optimize_image single_globals P E fs p))))"
    unfolding single_globals_def
    by (rule single_job_calls) (simp_all add: run)
  from run batch single show ?thesis by blast
qed

text \<open>A run of the example encoder on the 100 x 100 photo, which needs three resizes.\<close>

lemma area_run:
  "fst (optimize_run (module_globals ''out'' 3) area_pil photo ''WEBP'' 80) =
     [Save 100 100 80 (Inr 800000), Save 100 100 70 (Inr 700000),
      Save 100 100 60 (Inr 600000), Save 100 100 50 (Inr 500000),
      Save 100 100 40 (Inr 400000), Save 100 100 30 (Inr 300000), Resize 80 80,
      Save 80 80 80 (Inr 512000), Save 80 80 70 (Inr 448000),
      Save 80 80 60 (Inr 384000), Save 80 80 50 (Inr 320000),
      Save 80 80 40 (Inr 256000), Save 80 80 30 (Inr 192000), Resize 64 64,
      Save 64 64 80 (Inr 327680), Save 64 64 70 (Inr 286720),
      Save 64 64 60 (Inr 245760), Save 64 64 50 (Inr 204800),
      Save 64 64 45 (Inr 184320), Save 64 64 40 (Inr 163840),
      Save 64 64 35 (Inr 143360), Save 64 64 30 (Inr 122880), Resize 51 51,
      Save 51 51 80 (Inr 208080), Save 51 51 70 (Inr 182070),
      Save 51 51 65 (Inr 169065), Save 51 51 60 (Inr 156060),
      Save 51 51 55 (Inr 143055), Save 51 51 50 (Inr 130050),
      Save 51 51 45 (Inr 117045), Save 51 51 40 (Inr 104040),
      Save 51 51 35 (Inr 91035)]"
  by code_simp

lemma area_attempts:
  "resize_attempts (fst (optimize_run (module_globals ''out'' 3) area_pil photo ''WEBP'' 80)) = 3"
  "resize_attempts (calls_of ''WEBP'' (fst (snd (optimize_image (module_globals ''out'' 3) area_pil desk {} a_png)))) = 3"
  "resize_attempts (calls_of ''WEBP'' (fst (snd (single_optimize_image single_globals area_pil desk {} a_png)))) = 3"
  by code_simp+

theorem resize_only_after_floor_witness:
  "(30 :: int) \<le> 80 \<and>
   resizes_at_floor 30 None (fst (optimize_run (module_globals ''out'' 3) area_pil photo ''WEBP'' 80)) \<and>
   resize_attempts (fst (optimize_run (module_globals ''out'' 3) area_pil photo ''WEBP'' 80)) = 3 \<and>
   resizes_at_floor 30 None (calls_of ''WEBP'' (fst (snd (optimize_image (module_globals ''out'' 3) area_pil desk {} a_png)))) \<and>
   resize_attempts (calls_of ''WEBP'' (fst (snd (optimize_image (module_globals ''out'' 3) area_pil desk {} a_png)))) = 3 \<and>
   resizes_at_floor 30 None (calls_of ''WEBP'' (fst (snd (single_optimize_image single_globals area_pil desk {} a_png)))) \<and>
   resize_attempts (calls_of ''WEBP'' (fst (snd (single_optimize_image single_globals area_pil desk {} a_png)))) = 3"
  using resize_only_after_floor [where initial_quality = 80 and dir_name = "''out''"
      and decision = 3 and P = area_pil and img = photo and format_name = "''WEBP''"
      and E = desk and fs = "{}" and p = a_png]
  by (simp add: area_attempts)

section \<open>The quality stays between the floor and the cap\<close>

lemma qualities_append: "qualities (xs @ ys) = qualities xs @ qualities ys"
  by (induction xs rule: qualities.induct) auto

lemma reduce_loop_quality:
  assumes "in_range (MIN_QUALITY g) (quality st)" and "in_range (MIN_QUALITY g) iq"
  shows "(\<forall>q\<in>set (qualities (fst (reduce_loop g P f iq st))). in_range (MIN_QUALITY g) q) \<and>
         (\<forall>st'. snd (reduce_loop g P f iq st) = Inr st' \<longrightarrow>
            in_range (MIN_QUALITY g) (quality st'))"
  by (rule reduce_loop_rule [where I = "\<lambda>st. in_range (MIN_QUALITY g) (quality st)"
        and Q = "\<lambda>st tr r. (\<forall>q\<in>set (qualities tr). in_range (MIN_QUALITY g) q) \<and>
                   (\<forall>st'. r = Inr st' \<longrightarrow> in_range (MIN_QUALITY g) (quality st'))"])
     (use assms in \<open>auto simp: reduce_pass_def Let_def in_range_def qualities_append
        split: if_splits sum.splits\<close>)

lemma increase_loop_quality:
  assumes "in_range m (quality st)" and "m \<le> 93"
  shows "(\<forall>q\<in>set (qualities (fst (increase_loop g P f st))). in_range m q) \<and>
         (\<forall>st'. snd (increase_loop g P f st) = Inr st' \<longrightarrow> in_range m (quality st'))"
  by (rule increase_loop_rule [where I = "\<lambda>st. in_range m (quality st)"
        and Q = "\<lambda>st tr r. (\<forall>q\<in>set (qualities tr). in_range m q) \<and>
                   (\<forall>st'. r = Inr st' \<longrightarrow> in_range m (quality st'))"])
     (use assms in \<open>auto simp: increase_pass_def Let_def in_range_def qualities_append
        split: if_splits sum.splits\<close>)

lemma increase_phase_quality:
  assumes "in_range m (quality st)" and "m \<le> 93"
  shows "(\<forall>q\<in>set (qualities (fst (increase_phase g P f st))). in_range m q) \<and>
         (\<forall>st'. snd (increase_phase g P f st) = Inr st' \<longrightarrow> in_range m (quality st'))"
  using increase_loop_quality [OF assms] assms(1) by (simp add: increase_phase_def)

lemma optimize_run_quality:
  assumes "in_range (MIN_QUALITY g) iq" and "MIN_QUALITY g \<le> 93"
  shows "(\<forall>q\<in>set (qualities (fst (optimize_run g P img f iq))). in_range (MIN_QUALITY g) q) \<and>
         (\<forall>st. snd (optimize_run g P img f iq) = Inr st \<longrightarrow>
            in_range (MIN_QUALITY g) (quality st))"
proof (cases "working_copy P img f")
  case (Inl e)
  then show ?thesis by (simp add: optimize_run_unseeded)
next
  case (Inr cur)
  show ?thesis
  proof (cases "save_size P cur f iq")
    case (Inl e)
    with Inr assms show ?thesis by (simp add: optimize_run_unseeded)
  next
    case b: (Inr b)
    have down: "(\<forall>q\<in>set (qualities (fst (reduce_loop g P f iq (seed_state iq cur b)))).
                   in_range (MIN_QUALITY g) q) \<and>
                (\<forall>st'. snd (reduce_loop g P f iq (seed_state iq cur b)) = Inr st' \<longrightarrow>
                   in_range (MIN_QUALITY g) (quality st'))"
      using reduce_loop_quality [of g "seed_state iq cur b" iq P f] assms
      by (simp add: seed_state_def)
    show ?thesis
    proof (cases "snd (reduce_loop g P f iq (seed_state iq cur b))")
      case (Inl e)
      with down assms show ?thesis
        by (simp add: optimize_run_seeded [OF Inr b])
    next
      case st: (Inr st)
      with down have "in_range (MIN_QUALITY g) (quality st)" by simp
      from increase_phase_quality [OF this assms(2), of g P f] down assms st
      show ?thesis
        by (auto simp: optimize_run_seeded [OF Inr b] qualities_append)
    qed
  qed
qed

text \<open>
  C4. For an initial quality in [30, 98], every encode attempt of the optimizer (the seed
  encode, the downward steps, the encodes after a resize, the upward steps and the
  re-encode after an overshoot) is made at a quality in [30, 98], and so is the quality
  that \<^verbatim>\<open>optimize_to_target_size\<close> returns. The jobs of both variants start in that range,
  so every encode attempt of a job is made at a quality in [30, 98].
\<close>

theorem quality_within_bounds:
  "(30 \<le> initial_quality \<and> initial_quality \<le> 98 \<longrightarrow>
      (\<forall>q\<in>set (qualities (fst (optimize_run (module_globals dir_name decision) P img format_name initial_quality))).
         30 \<le> q \<and> q \<le> 98) \<and>
      (\<forall>sz q resized.
         optimize_to_target_size (module_globals dir_name decision) P img format_name initial_quality
           = Inr (sz, q, resized) \<longrightarrow>
         30 \<le> q \<and> q \<le> 98)) \<and>
   (\<forall>q\<in>set (qualities (calls_of format_name (fst (snd (optimize_image (module_globals dir_name decision) P E fs p))))). 30 \<le> q \<and> q \<le> 98) \<and>
   (\<forall>q\<in>set (qualities (calls_of format_name (fst (snd (single_optimize_image single_globals P E fs p))))). 30 \<le> q \<and> q \<le> 98)"
proof -
  have run: "(\<forall>q\<in>set (qualities (fst (optimize_run (module_globals d k) P img f iq))).
                30 \<le> q \<and> q \<le> 98) \<and>
             (\<forall>st. snd (optimize_run (module_globals d k) P img f iq) = Inr st \<longrightarrow>
                30 \<le> quality st \<and> quality st \<le> 98)"
    if "30 \<le> iq" and "iq \<le> 98" for d k img f iq
    using optimize_run_quality [of "module_globals d k" iq P img f] that
    by (simp add: in_range_def)
  have attempts: "list_all (in_range 30)
                    (qualities (fst (optimize_run (module_globals d k) P img f iq)))"
    if "30 \<le> iq" and "iq \<le> 98" for d k img f iq
    using run [OF that] by (simp add: list_all_iff in_range_def)
  have returned: "30 \<le> q \<and> q \<le> 98"
    if "30 \<le> iq" and "iq \<le> 98"
      and "optimize_to_target_size (module_globals d k) P img f iq = Inr (sz, q, resized)"
    for d k img f iq sz q resized
    using run [OF that(1,2), of d k img f] that(3)
    by (auto simp: optimize_to_target_size_def split: sum.splits)
  have batch: "list_all (in_range 30) (qualities (calls_of format_name (fst (snd (optimize_image (module_globals dir_name decision) P E fs p)))))"
    by (rule batch_job_calls) (simp_all add: attempts get_initial_quality_def)
  have single: "list_all (in_range 30) (qualities (calls_of format_name (fst (snd (single_optimize_image single_globals P E fs p)))))"
    unfolding single_globals_def
    by (rule single_job_calls) (simp_all add: attempts)
  have attempts': "\<forall>q\<in>set (qualities (fst (optimize_run (module_globals dir_name decision) P img format_name initial_quality))).
                     30 \<le> q \<and> q \<le> 98"
    if "30 \<le> initial_quality" and "initial_quality \<le> 98"
    using attempts [OF that, of dir_name decision img format_name]
    by (simp add: list_all_iff in_range_def)
  have returned': "\<forall>sz q resized.
         optimize_to_target_size (module_globals dir_name decision) P img format_name initial_quality
           = Inr (sz, q, resized) \<longrightarrow>
         30 \<le> q \<and> q \<le> 98"
    if "30 \<le> initial_quality" and "initial_quality \<le> 98"
    using returned [OF that] by blast
  have batch': "\<forall>q\<in>set (qualities (calls_of format_name (fst (snd (optimize_image (module_globals dir_name decision) P E fs p))))). 30 \<le> q \<and> q \<le> 98"
    using batch by (simp add: list_all_iff in_range_def)
  have single': "\<forall>q\<in>set (qualities (calls_of format_name (fst (snd (single_optimize_image single_globals P E fs p))))). 30 \<le> q \<and> q \<le> 98"
    using single by (simp add: list_all_iff in_range_def)
  show ?thesis
    using attempts' returned' batch' single' by (intro conjI impI) blast+
qed

lemma area_result:
  "optimize_to_target_size (module_globals ''out'' 3) area_pil photo ''WEBP'' 80 =
     Inr (91035 / 1024, 35, True)"
  by code_simp

lemma area_job_qualities:
  "qualities (calls_of ''AVIF'' (fst (snd (optimize_image (module_globals ''out'' 3) area_pil desk {} a_png)))) =
     [65, 55, 45, 35, 30, 65, 55, 45, 35, 30, 65, 55, 45, 40, 35, 30,
      65, 60, 55, 50, 45, 40, 35]"
  by code_simp

theorem quality_within_bounds_witness:
  "(30 :: int) \<le> 80 \<and> (80 :: int) \<le> 98 \<and>
   list_all (\<lambda>q. 30 \<le> q \<and> q \<le> 98) (qualities (fst (optimize_run (module_globals ''out'' 3) area_pil photo ''WEBP'' 80))) \<and>
   optimize_to_target_size (module_globals ''out'' 3) area_pil photo ''WEBP'' 80 =
     Inr (91035 / 1024, 35, True) \<and> (30 :: int) \<le> 35 \<and> (35 :: int) \<le> 98 \<and>
   list_all (\<lambda>q. 30 \<le> q \<and> q \<le> 98) (qualities (calls_of ''AVIF'' (fst (snd (optimize_image (module_globals ''out'' 3) area_pil desk {} a_png))))) \<and>
   list_all (\<lambda>q. 30 \<le> q \<and> q \<le> 98) (qualities (calls_of ''AVIF'' (fst (snd (single_optimize_image single_globals area_pil desk {} a_png))))) \<and>
   qualities (calls_of ''AVIF'' (fst (snd (optimize_image (module_globals ''out'' 3) area_pil desk {} a_png)))) =
     [65, 55, 45, 35, 30, 65, 55, 45, 35, 30, 65, 55, 45, 40, 35, 30,
      65, 60, 55, 50, 45, 40, 35]"
  using quality_within_bounds [where initial_quality = 80 and dir_name = "''out''"
      and decision = 3 and P = area_pil and img = photo and format_name = "''WEBP''"
      and E = desk and fs = "{}" and p = a_png]
    quality_within_bounds [where initial_quality = 80 and dir_name = "''out''"
      and decision = 3 and P = area_pil and img = photo and format_name = "''AVIF''"
      and E = desk and fs = "{}" and p = a_png]
  by (simp add: list_all_iff area_result area_job_qualities)

section \<open>Resizes: how many, from which size, and the quality afterwards\<close>


lemma resize_attempts_append:
  "resize_attempts (xs @ ys) = resize_attempts xs + resize_attempts ys"
  by (simp add: resize_attempts_def)













section \<open>The target maximum is never read\<close>

lemma reduce_pass_target_max:
  "reduce_pass (g\<lparr>TARGET_MAX_SIZE_KB := a\<rparr>) P f iq st = reduce_pass g P f iq st"
  by (simp add: reduce_pass_def Let_def cong: sum.case_cong if_cong)

lemma increase_pass_target_max:
  "increase_pass (g\<lparr>TARGET_MAX_SIZE_KB := a\<rparr>) P f st = increase_pass g P f st"
  by (simp add: increase_pass_def Let_def cong: sum.case_cong if_cong)

lemma reduce_loop_target_max:
  "reduce_loop (g\<lparr>TARGET_MAX_SIZE_KB := a\<rparr>) P f iq st = reduce_loop g P f iq st"
proof -
  let ?g = "g\<lparr>TARGET_MAX_SIZE_KB := a\<rparr>"
  have "reduce_loop ?g P f iq st =
          (fst (reduce_loop g P f iq st), snd (reduce_loop g P f iq st))"
  proof (rule reduce_loop_rule [where I = "\<lambda>st. True"
        and Q = "\<lambda>st tr r. reduce_loop ?g P f iq st = (tr, r)"], goal_cases)
    case 1
    show ?case by simp
  next
    case (2 st)
    then show ?case by (subst reduce_loop.simps) simp
  next
    case (3 st evs r)
    then show ?case by (subst reduce_loop.simps) (simp add: reduce_pass_target_max)
  next
    case 4
    show ?case by simp
  next
    case (5 st evs st' tr r)
    then show ?case by (subst reduce_loop.simps) (simp add: reduce_pass_target_max)
  qed
  then show ?thesis by simp
qed

lemma increase_loop_target_max:
  "increase_loop (g\<lparr>TARGET_MAX_SIZE_KB := a\<rparr>) P f st = increase_loop g P f st"
proof -
  let ?g = "g\<lparr>TARGET_MAX_SIZE_KB := a\<rparr>"
  have "increase_loop ?g P f st =
          (fst (increase_loop g P f st), snd (increase_loop g P f st))"
  proof (rule increase_loop_rule [where I = "\<lambda>st. True"
        and Q = "\<lambda>st tr r. increase_loop ?g P f st = (tr, r)"], goal_cases)
    case 1
    show ?case by simp
  next
    case (2 st)
    then show ?case by (subst increase_loop.simps) auto
  next
    case (3 st evs r)
    then show ?case by (subst increase_loop.simps) (auto simp: increase_pass_target_max)
  next
    case 4
    show ?case by simp
  next
    case (5 st evs st' tr r)
    then show ?case by (subst increase_loop.simps) (auto simp: increase_pass_target_max)
  qed
  then show ?thesis by simp
qed

lemma optimize_run_target_max:
  "optimize_run (g\<lparr>TARGET_MAX_SIZE_KB := a\<rparr>) P img f iq = optimize_run g P img f iq"
  by (simp add: optimize_run_def increase_phase_def reduce_loop_target_max
        increase_loop_target_max Let_def cong: sum.case_cong prod.case_cong if_cong)

lemma within_ceiling_done:
  assumes "current_size st \<le> of_int (MAX_SIZE_KB g)"
  shows "reduce_loop g P f iq st = ([], Inr st)"
  using assms by (subst reduce_loop.simps) simp

lemma above_minimum_done:
  assumes "of_int (TARGET_MIN_SIZE_KB g) \<le> current_size st"
  shows "increase_phase g P f st = ([], Inr st)"
  using assms by (simp add: increase_phase_def)

text \<open>
  C10. The run of the optimizer (the calls it makes, and the final size, quality, resize
  flag and image, or the exception) is the same for any two values of
  \<^verbatim>\<open>TARGET_MAX_SIZE_KB\<close>. With the values of the module, a state whose size lies in
  (90 KB, 100 KB] leaves the downward loop and the upward phase at once, unchanged and
  without a further call.
\<close>

theorem target_max_never_read:
  "optimize_run (g\<lparr>TARGET_MAX_SIZE_KB := a\<rparr>) P img format_name initial_quality =
     optimize_run (g\<lparr>TARGET_MAX_SIZE_KB := b\<rparr>) P img format_name initial_quality \<and>
   (90 < current_size st \<and> current_size st \<le> 100 \<longrightarrow>
      reduce_loop (module_globals dir_name decision) P format_name initial_quality st
        = ([], Inr st) \<and>
      increase_phase (module_globals dir_name decision) P format_name st = ([], Inr st))"
  by (simp add: optimize_run_target_max within_ceiling_done above_minimum_done)

lemma flat_result:
  "optimize_run (module_globals ''out'' 3) flat_pil photo ''WEBP'' 80 =
     ([Save 100 100 80 (Inr 97280)], Inr (seed_state 80 photo 97280))"
  by code_simp

lemma flat_size: "current_size (seed_state 80 photo 97280) = 95"
  by (simp add: seed_state_def kb_def)

theorem target_max_never_read_witness:
  "optimize_run ((module_globals ''out'' 3)\<lparr>TARGET_MAX_SIZE_KB := 50\<rparr>) flat_pil photo ''WEBP'' 80 =
     optimize_run ((module_globals ''out'' 3)\<lparr>TARGET_MAX_SIZE_KB := 90\<rparr>) flat_pil photo ''WEBP'' 80 \<and>
   90 < current_size (seed_state 80 photo 97280) \<and>
   current_size (seed_state 80 photo 97280) \<le> 100 \<and>
   reduce_loop (module_globals ''out'' 3) flat_pil ''WEBP'' 80 (seed_state 80 photo 97280)
     = ([], Inr (seed_state 80 photo 97280)) \<and>
   increase_phase (module_globals ''out'' 3) flat_pil ''WEBP'' (seed_state 80 photo 97280)
     = ([], Inr (seed_state 80 photo 97280)) \<and>
   optimize_to_target_size (module_globals ''out'' 3) flat_pil photo ''WEBP'' 80
     = Inr (95, 80, False)"
  using target_max_never_read [where g = "module_globals ''out'' 3" and a = 50 and b = 90
      and P = flat_pil and img = photo and format_name = "''WEBP''" and initial_quality = 80
      and st = "seed_state 80 photo 97280" and dir_name = "''out''" and decision = 3]
  by (simp add: flat_size optimize_to_target_size_def flat_result)
     (simp add: seed_state_def)

section \<open>The upward phase after an overshoot\<close>

text \<open>
  When the encode at the raised quality exceeds \<^verbatim>\<open>MAX_SIZE_KB\<close>, the loop encodes once
  more at that quality minus 5 and stops. The raised quality is \<open>min 98 (q + 5)\<close>, so the
  quality it goes back to is the one before (\<open>q\<close>) only when \<open>q \<le> 93\<close>; from 94 to 97 it
  is 93.
\<close>

lemma increase_pass_overshoot:
  assumes "save_size P (current_img st) f (min 98 (quality st + 5)) = Inr b"
    and "kb b > of_int (MAX_SIZE_KB g)"
    and "save_size P (current_img st) f (min 98 (quality st + 5) - 5) = Inr b'"
  shows "increase_pass g P f st =
           Leave [Save (width (current_img st)) (height (current_img st))
                    (min 98 (quality st + 5)) (Inr b),
                  Save (width (current_img st)) (height (current_img st))
                    (min 98 (quality st + 5) - 5) (Inr b')]
             (Inr (st\<lparr>quality := min 98 (quality st + 5) - 5, current_size := kb b'\<rparr>))"
  using assms by (auto simp: increase_pass_def Let_def min_def)

text \<open>
  C6. The upward phase raises the quality in steps of 5 with a cap at 98; the claim is
  that an overshoot takes the optimizer back to exactly the previous quality, also when
  the step was clamped at 98. On an encoder that writes 20 KB below quality 98 and 150 KB
  at 98, the run from quality 80 encodes at 85, 90 and 95, overshoots at 98 and goes back
  to 93, not to 95.
\<close>

theorem clamped_overshoot_reverts_to_93:
  "fst (optimize_run (module_globals ''out'' 3) cliff_pil photo ''WEBP'' 80) =
     [Save 100 100 80 (Inr 20480), Save 100 100 85 (Inr 20480),
      Save 100 100 90 (Inr 20480), Save 100 100 95 (Inr 20480),
      Save 100 100 98 (Inr 153600), Save 100 100 93 (Inr 20480)] \<and>
   optimize_to_target_size (module_globals ''out'' 3) cliff_pil photo ''WEBP'' 80 =
     Inr (20, 93, False)"
  by code_simp

section \<open>The size of the worker pool\<close>

text \<open>
  C2. The claim is that the pool has \<open>min requested cap\<close> workers, the cap being halved
  whenever AVIF is among the requested formats. The pool of \<^verbatim>\<open>process_batch\<close> has 2 workers
  for the selection AVIF only and 4 otherwise, whatever \<^verbatim>\<open>max_workers\<close> is and also when both
  formats are requested.
\<close>

theorem pool_ignores_requested_workers:
  "pool_workers (process_batch (module_globals dir_name decision) P E fs image_files
                   max_workers) =
     (if decision = 2 then 2 else 4)"
  by (simp add: process_batch_def get_optimal_workers_def Let_def split: prod.splits)

section \<open>Skipping jobs whose outputs exist\<close>

text \<open>A job is skipped exactly when both the WEBP and the AVIF output exist.\<close>

lemma skipped_iff_both_exist:
  "(\<exists>reason. fst (optimize_image g P E fs p) = Skipped p reason) \<longleftrightarrow>
   (\<exists>webp_path avif_path.
      get_output_path g E p ''webp'' = Inr webp_path \<and>
      get_output_path g E p ''avif'' = Inr avif_path \<and>
      webp_path \<in> fs \<and> avif_path \<in> fs)"
  by (simp add: optimize_image_def optimize_image_try_def Let_def
        split: sum.splits prod.splits)

text \<open>
  C1. The claim is that a job is skipped when the outputs of all requested formats
  exist, so that a second run over an unchanged directory skips every job, for each of
  the three selections. With the selection WEBP only, the first run writes the WEBP file
  and the second run encodes the image again: it counts one success and no skip.
\<close>

theorem second_run_encodes_again:
  "files (process_batch (module_globals ''out'' 1) flat_pil desk {} [a_png] 4) =
     {\<lparr>parent = [''pics'', ''out''], stem = ''a'', suffix = ''.webp''\<rparr>} \<and>
   successful (results (process_batch (module_globals ''out'' 1) flat_pil desk
        (files (process_batch (module_globals ''out'' 1) flat_pil desk {} [a_png] 4)) [a_png] 4)) = 1 \<and>
   skipped (results (process_batch (module_globals ''out'' 1) flat_pil desk
        (files (process_batch (module_globals ''out'' 1) flat_pil desk {} [a_png] 4)) [a_png] 4)) = 0 \<and>
   total (results (process_batch (module_globals ''out'' 1) flat_pil desk
        (files (process_batch (module_globals ''out'' 1) flat_pil desk {} [a_png] 4)) [a_png] 4)) = 1 \<and>
   calls (process_batch (module_globals ''out'' 1) flat_pil desk
        (files (process_batch (module_globals ''out'' 1) flat_pil desk {} [a_png] 4)) [a_png] 4) = [(''WEBP'', Save 100 100 80 (Inr 97280))]"
  by code_simp

section \<open>The EXIF mapping\<close>

lemma reduce_pass_tags:
  "reduce_pass g (P\<lparr>TAGS := t\<rparr>) f iq st = reduce_pass g P f iq st"
  by (simp add: reduce_pass_def Let_def cong: sum.case_cong if_cong)

lemma increase_pass_tags:
  "increase_pass g (P\<lparr>TAGS := t\<rparr>) f st = increase_pass g P f st"
  by (simp add: increase_pass_def Let_def cong: sum.case_cong if_cong)

lemma reduce_loop_tags:
  "reduce_loop g (P\<lparr>TAGS := t\<rparr>) f iq st = reduce_loop g P f iq st"
proof -
  let ?P = "P\<lparr>TAGS := t\<rparr>"
  have "reduce_loop g ?P f iq st =
          (fst (reduce_loop g P f iq st), snd (reduce_loop g P f iq st))"
  proof (rule reduce_loop_rule [where I = "\<lambda>st. True"
        and Q = "\<lambda>st tr r. reduce_loop g ?P f iq st = (tr, r)"], goal_cases)
    case 1
    show ?case by simp
  next
    case (2 st)
    then show ?case by (subst reduce_loop.simps) simp
  next
    case (3 st evs r)
    then show ?case by (subst reduce_loop.simps) (simp add: reduce_pass_tags)
  next
    case 4
    show ?case by simp
  next
    case (5 st evs st' tr r)
    then show ?case by (subst reduce_loop.simps) (simp add: reduce_pass_tags)
  qed
  then show ?thesis by simp
qed

lemma increase_loop_tags:
  "increase_loop g (P\<lparr>TAGS := t\<rparr>) f st = increase_loop g P f st"
proof -
  let ?P = "P\<lparr>TAGS := t\<rparr>"
  have "increase_loop g ?P f st =
          (fst (increase_loop g P f st), snd (increase_loop g P f st))"
  proof (rule increase_loop_rule [where I = "\<lambda>st. True"
        and Q = "\<lambda>st tr r. increase_loop g ?P f st = (tr, r)"], goal_cases)
    case 1
    show ?case by simp
  next
    case (2 st)
    then show ?case by (subst increase_loop.simps) auto
  next
    case (3 st evs r)
    then show ?case by (subst increase_loop.simps) (auto simp: increase_pass_tags)
  next
    case 4
    show ?case by simp
  next
    case (5 st evs st' tr r)
    then show ?case by (subst increase_loop.simps) (auto simp: increase_pass_tags)
  qed
  then show ?thesis by simp
qed

lemma optimize_run_tags:
  "optimize_run g (P\<lparr>TAGS := t\<rparr>) img f iq = optimize_run g P img f iq"
  by (simp add: optimize_run_def working_copy_def increase_phase_def reduce_loop_tags
        increase_loop_tags Let_def cong: sum.case_cong prod.case_cong if_cong)

lemma run_format_tags:
  "run_format g (P\<lparr>TAGS := t\<rparr>) img out f iq fs = run_format g P img out f iq fs"
  by (simp add: run_format_def optimize_to_target_size_def optimize_run_tags)

lemma optimize_image_try_tags:
  "optimize_image_try g (P\<lparr>TAGS := t\<rparr>) E fs input_path = optimize_image_try g P E fs input_path"
  by (simp add: optimize_image_try_def run_format_tags Let_def
        cong: sum.case_cong prod.case_cong if_cong)

lemma single_optimize_image_try_tags:
  "single_optimize_image_try g (P\<lparr>TAGS := t\<rparr>) E fs input_path
     = single_optimize_image_try g P E fs input_path"
  by (simp add: single_optimize_image_try_def run_format_tags Let_def
        cong: sum.case_cong prod.case_cong if_cong)

text \<open>
  C9. The claim is that the EXIF mapping extracted from the source is attached to the
  result of a successful job. \<^verbatim>\<open>preserve_metadata\<close> builds the mapping from the tags of the
  image and the table \<^verbatim>\<open>TAGS\<close>, and nothing reads it afterwards: what a job returns, the
  calls it makes and the files it leaves are the same for every table, in both variants.
\<close>

theorem extracted_exif_unused:
  "optimize_image g (P\<lparr>TAGS := t\<rparr>) E fs input_path = optimize_image g P E fs input_path \<and>
   single_optimize_image g (P\<lparr>TAGS := t\<rparr>) E fs input_path
     = single_optimize_image g P E fs input_path"
  by (simp add: optimize_image_def single_optimize_image_def optimize_image_try_tags
        single_optimize_image_try_tags)

text \<open>The photo of the examples has an EXIF mapping, which no result above carries.\<close>

lemma photo_exif:
  "preserve_metadata area_pil photo = Some [''Make'' \<mapsto> ''Canon'']"
  by (simp add: preserve_metadata_def area_pil_def photo_def)

section \<open>An invalid selection\<close>









lemma desk_paths:
  "get_output_path (module_globals ''out'' 7) desk a_png ''webp'' =
     Inr \<lparr>parent = [''pics'', ''out''], stem = ''a'', suffix = ''.webp''\<rparr>"
  "get_output_path (module_globals ''out'' 7) desk a_png ''avif'' =
     Inr \<lparr>parent = [''pics'', ''out''], stem = ''a'', suffix = ''.avif''\<rparr>"
  "open_image desk a_png = Inr photo"
  "getsize desk a_png = Inr 204800"
  by (simp_all add: get_output_path_def desk_def a_png_def)


section \<open>The initial quality, by variant\<close>

text \<open>
  C5, amended. \<^verbatim>\<open>get_initial_quality\<close> of the batch variant gives, for AVIF, 60 above 500 KB
  and 65 otherwise and, for any other format, 70 above 500 KB and 80 otherwise (the floor
  30 never applies), and a batch job starts the encodes of each format at that quality.
  The single-image variant starts the encodes of both formats at 70 above 500 KB and at
  80 otherwise.
\<close>

theorem initial_quality_by_variant:
  "get_initial_quality (module_globals dir_name decision) format_name original_size =
     (if upper format_name = ''AVIF'' then (if original_size > 500 then 60 else 65)
      else (if original_size > 500 then 70 else 80)) \<and>
   (getsize E p = Inr bytes \<longrightarrow>
      starts_at (get_initial_quality (module_globals dir_name decision) format_name (kb bytes))
        (calls_of format_name (fst (snd (optimize_image (module_globals dir_name decision) P E fs p)))) \<and>
      starts_at (if kb bytes > 500 then 70 else 80) (calls_of format_name (fst (snd (single_optimize_image single_globals P E fs p)))))"
proof -
  have policy: "get_initial_quality (module_globals dir_name decision) format_name original_size =
     (if upper format_name = ''AVIF'' then (if original_size > 500 then 60 else 65)
      else (if original_size > 500 then 70 else 80))"
    by (simp add: get_initial_quality_def)
  have batch: "starts_at (get_initial_quality (module_globals dir_name decision) format_name (kb bytes))
                 (calls_of format_name (fst (snd (optimize_image (module_globals dir_name decision) P E fs p))))"
    if "getsize E p = Inr bytes"
    by (rule batch_job_calls) (use that in \<open>auto simp: optimize_run_first\<close>)
  have single: "starts_at (if kb bytes > 500 then 70 else 80) (calls_of format_name (fst (snd (single_optimize_image single_globals P E fs p))))"
    if "getsize E p = Inr bytes"
    unfolding single_globals_def
    by (rule single_job_calls) (use that in \<open>auto simp: optimize_run_first\<close>)
  from policy batch single show ?thesis by blast
qed

text \<open>
  C5 as stated fails: on a 200 KB source the single-image variant starts the AVIF encodes
  at quality 80, where the policy for AVIF gives 65.
\<close>

theorem single_variant_avif_starts_at_80:
  "calls_of ''AVIF'' (fst (snd (single_optimize_image single_globals flat_pil desk {} a_png))) = [Save 100 100 80 (Inr 97280)] \<and>
   get_initial_quality single_globals ''AVIF'' (kb 204800) = 65 \<and>
   \<not> starts_at (get_initial_quality single_globals ''AVIF'' (kb 204800))
        (calls_of ''AVIF'' (fst (snd (single_optimize_image single_globals flat_pil desk {} a_png))))"
  by code_simp

lemma flat_job_calls:
  "calls_of ''AVIF'' (fst (snd (optimize_image (module_globals ''out'' 3) flat_pil desk {} a_png))) = [Save 100 100 65 (Inr 97280)]"
  "calls_of ''AVIF'' (fst (snd (single_optimize_image single_globals flat_pil desk {} a_png))) = [Save 100 100 80 (Inr 97280)]"
  by code_simp+

theorem initial_quality_by_variant_witness:
  "get_initial_quality (module_globals ''out'' 3) ''AVIF'' 200 = 65 \<and>
   getsize desk a_png = Inr 204800 \<and>
   starts_at 65 (calls_of ''AVIF'' (fst (snd (optimize_image (module_globals ''out'' 3) flat_pil desk {} a_png)))) \<and>
   starts_at 80 (calls_of ''AVIF'' (fst (snd (single_optimize_image single_globals flat_pil desk {} a_png)))) \<and>
   calls_of ''AVIF'' (fst (snd (optimize_image (module_globals ''out'' 3) flat_pil desk {} a_png))) = [Save 100 100 65 (Inr 97280)]"
  using initial_quality_by_variant [where dir_name = "''out''" and decision = 3
      and format_name = "''AVIF''" and original_size = 200 and E = desk and p = a_png
      and bytes = 204800 and P = flat_pil and fs = "{}"]
  by (simp add: desk_paths kb_def flat_job_calls get_initial_quality_def)

end
